theory Spec2Isabelle
  imports Main "HOL-Library.Word"
begin

section \<open>CacheEntryStatsCollector (cache/cache_entry_stats.h)\<close>

text \<open>
  The collector gathers statistics about the entries of a cache by a full traversal, keeps
  the last gathered statistics and hands out copies of them while they are recent enough.
  The embedding follows the header: \<open>uint64_t\<close> is \<open>64 word\<close> (unsigned, wrapping),
  the \<open>int\<close> parameter of \<open>GetStats\<close> is \<open>int\<close> (every C++ \<open>int\<close> is one, and the only
  operations on it are \<open>std::min\<close> against 0 and the cast to \<open>uint64_t\<close>, which is
  \<open>word_of_int\<close>), the members of the class are a record and the objects behind the
  pointers \<open>cache_\<close> and \<open>clock_\<close> are passed explicitly.
\<close>

type_synonym u64 = "64 word"

subsection \<open>The clock\<close>

text \<open>
  \<open>SystemClock::NowMicros\<close> returns the current time in microseconds. Time passes between
  two calls, so the clock is a sequence of readings and the number of readings taken so far.
\<close>

record SystemClock =
  readings :: "nat \<Rightarrow> u64"
  taken :: nat

definition NowMicros :: "SystemClock \<Rightarrow> u64 \<times> SystemClock" where
  "NowMicros clock = (readings clock (taken clock), clock\<lparr>taken := Suc (taken clock)\<rparr>)"

text \<open>A clock that never goes back (unsigned comparison of the readings).\<close>

definition monotonic :: "SystemClock \<Rightarrow> bool" where
  "monotonic clock \<longleftrightarrow> (\<forall>i j. i \<le> j \<longrightarrow> readings clock i \<le> readings clock j)"

subsection \<open>The Stats concept\<close>

text \<open>
  The template parameter \<open>Stats\<close> is any type with the four member functions of the
  concept (lines 39 to 50). A member function that mutates the object is a function from
  the old value to the new one. \<open>'c\<close> is the cache handed to the notifications, \<open>'e\<close> what
  the entry callback receives for one entry.
\<close>

record ('s, 'c, 'e) Stats =
  BeginCollection :: "'c \<Rightarrow> u64 \<Rightarrow> 's \<Rightarrow> 's"
  GetEntryCallback :: "'e \<Rightarrow> 's \<Rightarrow> 's"
  EndCollection :: "'c \<Rightarrow> u64 \<Rightarrow> 's \<Rightarrow> 's"
  SkippedCollection :: "'s \<Rightarrow> 's"

text \<open>
  \<open>Cache::ApplyToAllEntries\<close> applies the callback to the entries of the cache one after
  the other. The traversal order is the cache's: \<open>entries\<close> gives the entries in the order
  they are visited.
\<close>

definition ApplyToAllEntries :: "('c \<Rightarrow> 'e list) \<Rightarrow> 'c \<Rightarrow> ('e \<Rightarrow> 's \<Rightarrow> 's) \<Rightarrow> 's \<Rightarrow> 's" where
  "ApplyToAllEntries entries cache callback s = fold callback (entries cache) s"

text \<open>The calls that \<open>GetStats\<close> makes on the saved statistics and on the cache, in order.\<close>

datatype call =
  Call_BeginCollection u64
  | Call_ApplyToAllEntries
  | Call_EndCollection u64
  | Call_SkippedCollection

subsection \<open>The collector\<close>

record 's CacheEntryStatsCollector =
  saved_stats :: 's
  last_start_time_micros :: u64
  last_end_time_micros :: u64

text \<open>
  The constructor (lines 133 to 138): \<open>saved_stats_()\<close> is the default-constructed
  \<open>Stats\<close>, given here as \<open>default_stats\<close>.
\<close>

definition new_collector :: "'s \<Rightarrow> 's CacheEntryStatsCollector" where
  "new_collector default_stats =
     \<lparr>saved_stats = default_stats,
      last_start_time_micros = 0,
      last_end_time_micros = 10000000\<rparr>"

text \<open>Lines 60 and 61: the requested maximum age in microseconds.\<close>

definition requested_age_micros :: "int \<Rightarrow> u64" where
  "requested_age_micros maximum_age_in_seconds =
     word_of_int (min maximum_age_in_seconds 0) * 1000000"

text \<open>Lines 64 to 67: the bound that decides between a new scan and the saved statistics.\<close>

definition max_age_micros :: "'s CacheEntryStatsCollector \<Rightarrow> int \<Rightarrow> u64" where
  "max_age_micros c maximum_age_in_seconds =
     min (requested_age_micros maximum_age_in_seconds)
         (max 1000000 (100 * (last_end_time_micros c - last_start_time_micros c)))"

text \<open>
  What a call of \<open>GetStats\<close> leaves behind: the collector, the clock, the value copied to
  \<open>*stats\<close> and the calls made.
\<close>

record 's GetStats_result =
  collector_after :: "'s CacheEntryStatsCollector"
  clock_after :: SystemClock
  stats_out :: 's
  calls :: "call list"

text \<open>
  \<open>GetStats\<close> (lines 55 to 84). The mutex only serialises the callers: one call runs from
  its first line to its last without another call of the same collector in between.
\<close>

definition GetStats ::
  "('s, 'c, 'e) Stats \<Rightarrow> ('c \<Rightarrow> 'e list) \<Rightarrow> 'c \<Rightarrow> SystemClock \<Rightarrow>
   's CacheEntryStatsCollector \<Rightarrow> int \<Rightarrow> 's GetStats_result" where
  "GetStats S entries cache clock c maximum_age_in_seconds =
     (let max_age = max_age_micros c maximum_age_in_seconds;
          (start_time_micros, clock1) = NowMicros clock
      in if start_time_micros - last_end_time_micros c > max_age then
           let s1 = BeginCollection S cache start_time_micros (saved_stats c);
               s2 = ApplyToAllEntries entries cache (GetEntryCallback S) s1;
               (end_time_micros, clock2) = NowMicros clock1;
               s3 = EndCollection S cache end_time_micros s2
           in \<lparr>collector_after =
                  \<lparr>saved_stats = s3,
                   last_start_time_micros = start_time_micros,
                   last_end_time_micros = end_time_micros\<rparr>,
                clock_after = clock2,
                stats_out = s3,
                calls = [Call_BeginCollection start_time_micros, Call_ApplyToAllEntries,
                         Call_EndCollection end_time_micros]\<rparr>
         else
           let s1 = SkippedCollection S (saved_stats c)
           in \<lparr>collector_after = c\<lparr>saved_stats := s1\<rparr>,
                clock_after = clock1,
                stats_out = s1,
                calls = [Call_SkippedCollection]\<rparr>)"

text \<open>Successive calls on one collector, each starting where the one before it stopped.\<close>

fun GetStats_sequence ::
  "('s, 'c, 'e) Stats \<Rightarrow> ('c \<Rightarrow> 'e list) \<Rightarrow> 'c \<Rightarrow> SystemClock \<Rightarrow>
   's CacheEntryStatsCollector \<Rightarrow> int list \<Rightarrow> 's GetStats_result list" where
  "GetStats_sequence S entries cache clock c [] = []"
| "GetStats_sequence S entries cache clock c (a # as) =
     (let r = GetStats S entries cache clock c a
      in r # GetStats_sequence S entries cache (clock_after r) (collector_after r) as)"

text \<open>The invariant of the two time stamps: the last scan did not end before it started.\<close>

definition times_ordered :: "'s CacheEntryStatsCollector \<Rightarrow> bool" where
  "times_ordered c \<longleftrightarrow> last_start_time_micros c \<le> last_end_time_micros c"

text \<open>
  The bound as the specification words it, to be compared with \<open>max_age_micros\<close>: the
  requested bound is \<open>maximum_age_in_seconds\<close> converted to microseconds, and the
  effective bound is the minimum of it and the maximum of one second and a hundred times
  the duration of the last scan.
\<close>

definition spec_effective_bound :: "'s CacheEntryStatsCollector \<Rightarrow> int \<Rightarrow> u64" where
  "spec_effective_bound c maximum_age_in_seconds =
     min (word_of_int maximum_age_in_seconds * 1000000)
         (max 1000000 (100 * (last_end_time_micros c - last_start_time_micros c)))"

subsection \<open>A Stats type, a cache and clocks for concrete runs\<close>

text \<open>
  A type that meets the concept: it counts the entries of the last scan and the copies of
  that scan handed out since. The cache of the runs is the list of its entries, and
  \<open>clock_of ts\<close> is the clock that reads \<open>ts\<close> and then stays at the last of them.
\<close>

record EntryCount =
  entry_count :: nat
  copies_of_last_collection :: nat

definition EntryCount_Stats :: "(EntryCount, 'c, 'e) Stats" where
  "EntryCount_Stats =
     \<lparr>BeginCollection = (\<lambda>cache start_time_micros s.
         \<lparr>entry_count = 0, copies_of_last_collection = 0\<rparr>),
      GetEntryCallback = (\<lambda>e s. s\<lparr>entry_count := Suc (entry_count s)\<rparr>),
      EndCollection = (\<lambda>cache end_time_micros s. s),
      SkippedCollection = (\<lambda>s.
         s\<lparr>copies_of_last_collection := Suc (copies_of_last_collection s)\<rparr>)\<rparr>"

definition EntryCount_default :: EntryCount where
  "EntryCount_default = \<lparr>entry_count = 0, copies_of_last_collection = 0\<rparr>"

definition list_entries :: "'e list \<Rightarrow> 'e list" where
  "list_entries cache = cache"

fun reading_of :: "u64 list \<Rightarrow> nat \<Rightarrow> u64" where
  "reading_of [] i = 0"
| "reading_of [t] i = t"
| "reading_of (t # ts) 0 = t"
| "reading_of (t # ts) (Suc i) = reading_of ts i"

definition clock_of :: "u64 list \<Rightarrow> SystemClock" where
  "clock_of ts = \<lparr>readings = reading_of ts, taken = 0\<rparr>"

section \<open>GetShared\<close>

text \<open>
  \<open>Status\<close> (rocksdb/status.h) is used through \<open>ok()\<close> only: it is \<open>OK\<close> or a failure
  with its code.
\<close>

datatype Status = OK | Failure nat

definition ok :: "Status \<Rightarrow> bool" where
  "ok s \<longleftrightarrow> s = OK"

text \<open>
  The cleanup callback of a cache entry is a function pointer, compared by identity:
  \<open>Deleter\<close> is the static member of lines 140 to 142, \<open>OtherDeleter n\<close> any other
  function.
\<close>

datatype DeleterFn = Deleter | OtherDeleter nat

text \<open>
  \<open>Cache\<close> (rocksdb/cache.h) is an abstract class. \<open>GetShared\<close> uses its member functions
  \<open>Lookup\<close>, \<open>Insert\<close> and \<open>GetDeleter\<close>, taken here as parameters over a cache state
  \<open>'c\<close>, with handles \<open>'h\<close> (\<open>None\<close> is \<open>nullptr\<close>) and values \<open>'v\<close>. \<open>Lookup\<close> and
  \<open>Insert\<close> may change the cache; \<open>Insert\<close> returns the status and what it wrote to the
  handle it was given.
\<close>

record ('c, 'h, 'v) Cache =
  Lookup :: "'c \<Rightarrow> u64 list \<Rightarrow> 'h option \<times> 'c"
  Insert :: "'c \<Rightarrow> u64 list \<Rightarrow> 'v \<Rightarrow> nat \<Rightarrow> DeleterFn \<Rightarrow> Status \<times> 'h option \<times> 'c"
  GetDeleter :: "'c \<Rightarrow> 'h \<Rightarrow> DeleterFn"

text \<open>
  Lines 93 to 99: the key is the three words of \<open>cache_key_data\<close>, the last of them the
  address of the instantiation's \<open>GetShared\<close>.
\<close>

definition cache_key_data :: "u64 \<Rightarrow> u64 list" where
  "cache_key_data GetShared_address =
     [0x7eba5a8fb5437c90, 0x8ca68c9b11655855, GetShared_address]"

text \<open>
  Modelled from the spec: \<open>MakeSharedCacheHandleGuard\<close> is declared in
  cache/cache_helpers.h, which is not among the sources. By section 4.4 the guard wraps a
  live cache handle and releases it with its last reference; a shared pointer is empty or
  the guard of a handle.
\<close>

datatype 'h shared_ptr = Empty_ptr | Guard 'h

definition MakeSharedCacheHandleGuard :: "'h \<Rightarrow> 'h shared_ptr" where
  "MakeSharedCacheHandleGuard h = Guard h"

text \<open>
  \<open>assert\<close> is the macro of \<open><cassert>\<close>: it checks its condition and aborts the
  program when the condition fails, unless the macro \<open>NDEBUG\<close> is defined, and then it
  is no code at all. Whether \<open>NDEBUG\<close> is defined is decided where the header is compiled,
  so it is a parameter of the embedding.

  The ways \<open>GetShared\<close> ends without returning: the assertion of line 118, the assertion
  of line 124, and a null handle handed to the cache at lines 124 to 128 (by a cache
  whose \<open>Insert\<close> returned OK and no handle).
\<close>

datatype abort = Assert_handle_is_null | Assert_deleter | Null_handle

record ('c, 'h) GetShared_result =
  outcome :: "abort + Status"
  ptr_after :: "'h shared_ptr"
  cache_after :: 'c

text \<open>
  Lines 101 to 122: the lookup, the lookup again under the mutex and the insert. They end
  the call (\<open>Inl\<close>: the \<open>return s\<close> of line 119, or the assertion of line 118) or go on
  to line 123 with the handle \<open>h\<close> (\<open>Inr\<close>).
\<close>

definition lookup_or_insert ::
  "bool \<Rightarrow> ('c, 'h, 's CacheEntryStatsCollector) Cache \<Rightarrow> u64 list \<Rightarrow> 's \<Rightarrow> 'c \<Rightarrow>
   ((abort + Status) + 'h option) \<times> 'c" where
  "lookup_or_insert NDEBUG K cache_key default_stats cache =
     (let (h, cache1) = Lookup K cache cache_key
      in if h = None then
           (let (h, cache2) = Lookup K cache1 cache_key
            in if h = None then
                 (let new_ptr = new_collector default_stats;
                      charge = 0;
                      (s, h, cache3) = Insert K cache2 cache_key new_ptr charge Deleter
                  in if \<not> ok s then
                       (if \<not> NDEBUG \<and> h \<noteq> None
                        then (Inl (Inl Assert_handle_is_null), cache3)
                        else (Inl (Inr s), cache3))
                     else (Inr h, cache3))
               else (Inr h, cache2))
         else (Inr h, cache1))"

text \<open>
  Lines 123 to 129, with the handle \<open>h\<close> the lines before have left: the assertion on the
  cleanup callback, then the guard written to \<open>*ptr\<close> and the status OK.
\<close>

definition share_handle ::
  "bool \<Rightarrow> ('c, 'h, 'v) Cache \<Rightarrow> 'c \<Rightarrow> 'h option \<Rightarrow> 'h shared_ptr \<Rightarrow>
   ('c, 'h) GetShared_result" where
  "share_handle NDEBUG K cache h ptr =
     (case h of
        None \<Rightarrow> \<lparr>outcome = Inl Null_handle, ptr_after = ptr, cache_after = cache\<rparr>
      | Some h1 \<Rightarrow>
          if \<not> NDEBUG \<and> GetDeleter K cache h1 \<noteq> Deleter then
            \<lparr>outcome = Inl Assert_deleter, ptr_after = ptr, cache_after = cache\<rparr>
          else
            \<lparr>outcome = Inr OK, ptr_after = MakeSharedCacheHandleGuard h1,
             cache_after = cache\<rparr>)"

text \<open>
  \<open>GetShared\<close> (lines 91 to 130). The collector does not keep the clock in this
  embedding, so the \<open>clock\<close> argument has no counterpart; \<open>ptr\<close> is what the caller's
  shared pointer holds before the call.
\<close>

definition GetShared ::
  "bool \<Rightarrow> ('c, 'h, 's CacheEntryStatsCollector) Cache \<Rightarrow> u64 \<Rightarrow> 's \<Rightarrow> 'c \<Rightarrow>
   'h shared_ptr \<Rightarrow> ('c, 'h) GetShared_result" where
  "GetShared NDEBUG K GetShared_address default_stats cache ptr =
     (let cache_key = cache_key_data GetShared_address
      in case lookup_or_insert NDEBUG K cache_key default_stats cache of
           (Inl stop, cache1) \<Rightarrow>
             \<lparr>outcome = stop, ptr_after = ptr, cache_after = cache1\<rparr>
         | (Inr h, cache1) \<Rightarrow> share_handle NDEBUG K cache1 h ptr)"

subsection \<open>A cache for concrete runs\<close>

text \<open>
  Modelled from the spec: rocksdb/cache.h and the cache implementations are not among the
  sources. Section 6 asks of a cache a lookup by key, an insert with a charge and a cleanup
  callback that returns a status and a handle, and the cleanup callback of a handle. The
  cache below is a table from keys to entries; the handle of an entry is the entry, and a
  cache that is full rejects every insert and leaves the handle \<open>nullptr\<close>.
\<close>

record 'v entry =
  entry_value :: 'v
  entry_charge :: nat
  entry_deleter :: DeleterFn

record 'v table_cache =
  table :: "u64 list \<rightharpoonup> 'v entry"
  full :: bool

definition table_Lookup :: "'v table_cache \<Rightarrow> u64 list \<Rightarrow> 'v entry option \<times> 'v table_cache" where
  "table_Lookup c k = (table c k, c)"

definition table_Insert ::
  "'v table_cache \<Rightarrow> u64 list \<Rightarrow> 'v \<Rightarrow> nat \<Rightarrow> DeleterFn \<Rightarrow>
   Status \<times> 'v entry option \<times> 'v table_cache" where
  "table_Insert c k v charge d =
     (if full c then (Failure 7, None, c)
      else
        (let e = \<lparr>entry_value = v, entry_charge = charge, entry_deleter = d\<rparr>
         in (OK, Some e, c\<lparr>table := (table c)(k \<mapsto> e)\<rparr>)))"

definition table_Cache :: "('v table_cache, 'v entry, 'v) Cache" where
  "table_Cache =
     \<lparr>Lookup = table_Lookup, Insert = table_Insert,
      GetDeleter = (\<lambda>c h. entry_deleter h)\<rparr>"

definition empty_cache :: "bool \<Rightarrow> 'v table_cache" where
  "empty_cache is_full = \<lparr>table = Map.empty, full = is_full\<rparr>"

definition cache_holding :: "u64 list \<Rightarrow> 'v entry \<Rightarrow> 'v table_cache" where
  "cache_holding k e = \<lparr>table = [k \<mapsto> e], full = False\<rparr>"

text \<open>An entry of some other user of the cache, with a cleanup callback of its own.\<close>

definition foreign_entry :: "EntryCount CacheEntryStatsCollector entry" where
  "foreign_entry =
     \<lparr>entry_value = new_collector EntryCount_default, entry_charge = 5,
      entry_deleter = OtherDeleter 1\<rparr>"

text \<open>
  A cache that does what line 118 asserts no cache does: its \<open>Insert\<close> fails and still
  writes a handle.
\<close>

definition careless_Insert ::
  "'v table_cache \<Rightarrow> u64 list \<Rightarrow> 'v \<Rightarrow> nat \<Rightarrow> DeleterFn \<Rightarrow>
   Status \<times> 'v entry option \<times> 'v table_cache" where
  "careless_Insert c k v charge d =
     (Failure 7, Some \<lparr>entry_value = v, entry_charge = charge, entry_deleter = d\<rparr>, c)"

definition careless_Cache :: "('v table_cache, 'v entry, 'v) Cache" where
  "careless_Cache =
     \<lparr>Lookup = table_Lookup, Insert = careless_Insert,
      GetDeleter = (\<lambda>c h. entry_deleter h)\<rparr>"

text \<open>
  No unrelated entry is stored under the key \<open>k\<close> of a table cache: the table has no
  entry there, or an entry that was inserted with the collector's \<open>Deleter\<close>.
\<close>

definition no_unrelated_entry :: "'v table_cache \<Rightarrow> u64 list \<Rightarrow> bool" where
  "no_unrelated_entry c k =
     (case table c k of None \<Rightarrow> True | Some e \<Rightarrow> entry_deleter e = Deleter)"

section \<open>Properties of GetStats\<close>

subsection \<open>The bound and the two branches\<close>

lemma requested_age_micros_nonneg:
  "0 \<le> a \<Longrightarrow> requested_age_micros a = 0"
  by (simp add: requested_age_micros_def min_def)

lemma max_age_micros_nonneg:
  "0 \<le> a \<Longrightarrow> max_age_micros c a = 0"
  by (simp add: max_age_micros_def requested_age_micros_nonneg)

lemma requested_age_micros_minus_one:
  "requested_age_micros (- 1) = 18446744073708551616"
  by (simp add: requested_age_micros_def)

lemma zero_less_diff_u64: "(0 :: u64) < a - b \<longleftrightarrow> a \<noteq> b"
  by (auto simp: word_gt_0)

lemma GetStats_scan:
  assumes "readings clock (taken clock) - last_end_time_micros c > max_age_micros c a"
  shows "GetStats S entries cache clock c a =
    \<lparr>collector_after =
        \<lparr>saved_stats = EndCollection S cache (readings clock (Suc (taken clock)))
           (ApplyToAllEntries entries cache (GetEntryCallback S)
             (BeginCollection S cache (readings clock (taken clock)) (saved_stats c))),
         last_start_time_micros = readings clock (taken clock),
         last_end_time_micros = readings clock (Suc (taken clock))\<rparr>,
      clock_after = clock\<lparr>taken := Suc (Suc (taken clock))\<rparr>,
      stats_out = EndCollection S cache (readings clock (Suc (taken clock)))
           (ApplyToAllEntries entries cache (GetEntryCallback S)
             (BeginCollection S cache (readings clock (taken clock)) (saved_stats c))),
      calls = [Call_BeginCollection (readings clock (taken clock)), Call_ApplyToAllEntries,
               Call_EndCollection (readings clock (Suc (taken clock)))]\<rparr>"
  using assms by (simp add: GetStats_def NowMicros_def Let_def)

lemma GetStats_skip:
  assumes "\<not> readings clock (taken clock) - last_end_time_micros c > max_age_micros c a"
  shows "GetStats S entries cache clock c a =
    \<lparr>collector_after = c\<lparr>saved_stats := SkippedCollection S (saved_stats c)\<rparr>,
      clock_after = clock\<lparr>taken := Suc (taken clock)\<rparr>,
      stats_out = SkippedCollection S (saved_stats c),
      calls = [Call_SkippedCollection]\<rparr>"
  using assms by (simp add: GetStats_def NowMicros_def Let_def)

lemma GetStats_saved_stats:
  "saved_stats (collector_after (GetStats S entries cache clock c a)) =
   stats_out (GetStats S entries cache clock c a)"
  by (simp add: GetStats_def NowMicros_def Let_def)

lemma GetStats_clock_readings:
  "readings (clock_after (GetStats S entries cache clock c a)) = readings clock"
  by (simp add: GetStats_def NowMicros_def Let_def)

text \<open>The definitions that a run on the concrete Stats type, cache and clocks unfolds.\<close>

lemmas run_defs = GetStats_def NowMicros_def Let_def clock_of_def new_collector_def
  max_age_micros_def requested_age_micros_def ApplyToAllEntries_def list_entries_def
  EntryCount_Stats_def EntryCount_default_def word_gt_0

lemma EntryCount_SkippedCollection:
  "SkippedCollection EntryCount_Stats s =
     s\<lparr>copies_of_last_collection := Suc (copies_of_last_collection s)\<rparr>"
  by (simp add: EntryCount_Stats_def)

subsection \<open>The effective bound\<close>

text \<open>
  C1 (the code departs from the claim). The claim: the effective bound is
  min(requested bound, max(1 second, 100 times the duration of the last scan)), the
  requested bound being \<open>maximum_age_in_seconds\<close> in microseconds. On a new collector and
  the default age of 180 seconds that is 180000000 microseconds; \<open>GetStats\<close> computes 0,
  because line 61 takes \<open>std::min\<close> of the age and 0 where the comment above it speaks of
  the age given by the parameter.
\<close>

theorem default_age_bound_is_zero:
  "max_age_micros (new_collector default_stats) 180 = 0 \<and>
   spec_effective_bound (new_collector default_stats) 180 = 180000000"
  by (simp add: max_age_micros_nonneg spec_effective_bound_def new_collector_def)

text \<open>
  C2. For every non-negative \<open>maximum_age_in_seconds\<close> the bound \<open>max_age_micros\<close> is
  exactly zero, and a call whose clock reading is strictly greater than
  \<open>last_end_time_micros\<close> performs a fresh scan: the statistics saved and copied out are
  those of \<open>BeginCollection\<close>, the traversal and \<open>EndCollection\<close> applied in this order to
  the saved ones, the two time stamps are the clock readings before and after the
  traversal, and \<open>SkippedCollection\<close> is not called.
\<close>

theorem nonnegative_age_bound_is_zero:
  assumes "0 \<le> maximum_age_in_seconds"
  shows "max_age_micros c maximum_age_in_seconds = 0 \<and>
    (last_end_time_micros c < readings clock (taken clock) \<longrightarrow>
      GetStats S entries cache clock c maximum_age_in_seconds =
        \<lparr>collector_after =
           \<lparr>saved_stats = EndCollection S cache (readings clock (Suc (taken clock)))
              (ApplyToAllEntries entries cache (GetEntryCallback S)
                (BeginCollection S cache (readings clock (taken clock)) (saved_stats c))),
            last_start_time_micros = readings clock (taken clock),
            last_end_time_micros = readings clock (Suc (taken clock))\<rparr>,
         clock_after = clock\<lparr>taken := Suc (Suc (taken clock))\<rparr>,
         stats_out = EndCollection S cache (readings clock (Suc (taken clock)))
              (ApplyToAllEntries entries cache (GetEntryCallback S)
                (BeginCollection S cache (readings clock (taken clock)) (saved_stats c))),
         calls = [Call_BeginCollection (readings clock (taken clock)), Call_ApplyToAllEntries,
                  Call_EndCollection (readings clock (Suc (taken clock)))]\<rparr>)"
proof -
  have z: "max_age_micros c maximum_age_in_seconds = 0"
    using assms by (rule max_age_micros_nonneg)
  have "max_age_micros c maximum_age_in_seconds
        < readings clock (taken clock) - last_end_time_micros c"
    if "last_end_time_micros c < readings clock (taken clock)"
    using that by (auto simp: z zero_less_diff_u64)
  then show ?thesis
    using z GetStats_scan [of c maximum_age_in_seconds clock S entries cache] by blast
qed

text \<open>
  The theorem at the default age, on a collector that has saved a count of 9 entries and
  7 copies from a scan between 3 and 4 microseconds, read at 10000001 microseconds over a
  cache of two entries: the scan counts 2 entries and no copy.
\<close>

theorem nonnegative_age_bound_is_zero_witness:
  "(0::int) \<le> 180 \<and>
   max_age_micros
     \<lparr>saved_stats = \<lparr>entry_count = 9, copies_of_last_collection = 7\<rparr>,
      last_start_time_micros = 3, last_end_time_micros = 4\<rparr> 180 = 0 \<and>
   last_end_time_micros
     \<lparr>saved_stats = \<lparr>entry_count = 9, copies_of_last_collection = 7\<rparr>,
      last_start_time_micros = 3, last_end_time_micros = 4\<rparr>
     < readings (clock_of [10000001, 10000009]) (taken (clock_of [10000001, 10000009])) \<and>
   GetStats EntryCount_Stats list_entries [10::nat, 20] (clock_of [10000001, 10000009])
     \<lparr>saved_stats = \<lparr>entry_count = 9, copies_of_last_collection = 7\<rparr>,
      last_start_time_micros = 3, last_end_time_micros = 4\<rparr> 180 =
     \<lparr>collector_after =
        \<lparr>saved_stats = \<lparr>entry_count = 2, copies_of_last_collection = 0\<rparr>,
         last_start_time_micros = 10000001, last_end_time_micros = 10000009\<rparr>,
      clock_after = (clock_of [10000001, 10000009])\<lparr>taken := 2\<rparr>,
      stats_out = \<lparr>entry_count = 2, copies_of_last_collection = 0\<rparr>,
      calls = [Call_BeginCollection 10000001, Call_ApplyToAllEntries,
               Call_EndCollection 10000009]\<rparr>"
  using nonnegative_age_bound_is_zero
          [of 180 "\<lparr>saved_stats = \<lparr>entry_count = 9, copies_of_last_collection = 7\<rparr>,
                     last_start_time_micros = 3, last_end_time_micros = 4\<rparr>"
              "clock_of [10000001, 10000009]" EntryCount_Stats list_entries "[10::nat, 20]"]
  by (simp add: clock_of_def EntryCount_Stats_def ApplyToAllEntries_def list_entries_def)

text \<open>
  C10. For \<open>maximum_age_in_seconds = -1\<close> the requested age wraps to \<open>2^64 - 1000000\<close>.
  When max(1000000, 100 times the duration of the last scan), computed in 64 bits as the
  code does, is below that value, the bound is that maximum: it is greater than the bound
  of every non-negative age, which is zero, and a call within it takes the skip branch.
\<close>

theorem negative_age_bound_permits_skipping:
  assumes "max 1000000 (100 * (last_end_time_micros c - last_start_time_micros c))
             < requested_age_micros (- 1)"
  shows "requested_age_micros (- 1) = 18446744073708551616 \<and>
         max_age_micros c (- 1) =
           max 1000000 (100 * (last_end_time_micros c - last_start_time_micros c)) \<and>
         (0 \<le> maximum_age_in_seconds \<longrightarrow>
            max_age_micros c maximum_age_in_seconds = 0 \<and>
            max_age_micros c maximum_age_in_seconds < max_age_micros c (- 1)) \<and>
         (readings clock (taken clock) - last_end_time_micros c \<le> max_age_micros c (- 1) \<longrightarrow>
            calls (GetStats S entries cache clock c (- 1)) = [Call_SkippedCollection])"
proof -
  let ?m = "max 1000000 (100 * (last_end_time_micros c - last_start_time_micros c))"
  have w: "requested_age_micros (- 1) = 18446744073708551616"
    by (rule requested_age_micros_minus_one)
  have "?m \<le> requested_age_micros (- 1)"
    using assms by (rule less_imp_le)
  then have b: "max_age_micros c (- 1) = ?m"
    unfolding max_age_micros_def by (rule min_absorb2)
  have "(1000000 :: u64) \<le> ?m" by simp
  then have pos: "0 < max_age_micros c (- 1)"
    unfolding b by (rule less_le_trans [rotated]) simp
  have skip: "calls (GetStats S entries cache clock c (- 1)) = [Call_SkippedCollection]"
    if "readings clock (taken clock) - last_end_time_micros c \<le> max_age_micros c (- 1)"
  proof -
    from that have "\<not> max_age_micros c (- 1)
        < readings clock (taken clock) - last_end_time_micros c"
      by simp
    then show ?thesis by (simp add: GetStats_skip)
  qed
  show ?thesis
    using w b pos skip by (simp add: max_age_micros_nonneg)
qed

text \<open>
  The theorem on a new collector, whose seeded times give a bound of 1000000000
  microseconds for the age -1, read 500 microseconds after the seeded end time.
\<close>

theorem negative_age_bound_permits_skipping_witness:
  "max 1000000 (100 * (last_end_time_micros (new_collector EntryCount_default)
        - last_start_time_micros (new_collector EntryCount_default)))
     < requested_age_micros (- 1) \<and>
   max_age_micros (new_collector EntryCount_default) (- 1) = 1000000000 \<and>
   (0::int) \<le> 180 \<and>
   max_age_micros (new_collector EntryCount_default) 180 = 0 \<and>
   max_age_micros (new_collector EntryCount_default) 180
     < max_age_micros (new_collector EntryCount_default) (- 1) \<and>
   readings (clock_of [10000500]) (taken (clock_of [10000500]))
     - last_end_time_micros (new_collector EntryCount_default)
     \<le> max_age_micros (new_collector EntryCount_default) (- 1) \<and>
   calls (GetStats EntryCount_Stats list_entries [10::nat, 20] (clock_of [10000500])
            (new_collector EntryCount_default) (- 1)) = [Call_SkippedCollection]"
proof -
  have h: "max 1000000 (100 * (last_end_time_micros (new_collector EntryCount_default)
        - last_start_time_micros (new_collector EntryCount_default)))
     < requested_age_micros (- 1)"
    by (simp add: new_collector_def requested_age_micros_def)
  show ?thesis
    using h negative_age_bound_permits_skipping
              [OF h, of 180 "clock_of [10000500]" EntryCount_Stats list_entries "[10::nat, 20]"]
    by (simp add: new_collector_def clock_of_def)
qed

subsection \<open>The first call and the calls after it\<close>

text \<open>
  C3 as stated fails: a new collector whose clock reads 10000000 microseconds, the seeded
  \<open>last_end_time_micros\<close>, at its first call with the default age has an elapsed time of 0,
  which does not exceed the bound 0, and the call takes the skip branch.
\<close>

theorem first_call_at_seeded_end_time_skips:
  "calls (GetStats EntryCount_Stats list_entries [10::nat, 20] (clock_of [10000000])
            (new_collector EntryCount_default) 180) = [Call_SkippedCollection]"
  by (simp add: run_defs)

text \<open>
  C3 (amended). For every non-negative \<open>maximum_age_in_seconds\<close> and every clock reading
  other than 10000000 at the time of the call, the first call on a new collector takes the
  scan branch: \<open>BeginCollection\<close>, the traversal and \<open>EndCollection\<close> are applied once
  each, in this order, to the default-constructed statistics, the result is saved and
  copied out, the two time stamps are the clock readings before and after the traversal,
  and \<open>SkippedCollection\<close> is not called.
\<close>

theorem first_call_scans_once:
  assumes "0 \<le> maximum_age_in_seconds" and "readings clock (taken clock) \<noteq> 10000000"
  shows "GetStats S entries cache clock (new_collector default_stats)
           maximum_age_in_seconds =
           \<lparr>collector_after =
              \<lparr>saved_stats = EndCollection S cache (readings clock (Suc (taken clock)))
                 (ApplyToAllEntries entries cache (GetEntryCallback S)
                   (BeginCollection S cache (readings clock (taken clock)) default_stats)),
               last_start_time_micros = readings clock (taken clock),
               last_end_time_micros = readings clock (Suc (taken clock))\<rparr>,
            clock_after = clock\<lparr>taken := Suc (Suc (taken clock))\<rparr>,
            stats_out = EndCollection S cache (readings clock (Suc (taken clock)))
                 (ApplyToAllEntries entries cache (GetEntryCallback S)
                   (BeginCollection S cache (readings clock (taken clock)) default_stats)),
            calls = [Call_BeginCollection (readings clock (taken clock)),
                     Call_ApplyToAllEntries,
                     Call_EndCollection (readings clock (Suc (taken clock)))]\<rparr>"
proof -
  have "max_age_micros (new_collector default_stats) maximum_age_in_seconds
      < readings clock (taken clock) - last_end_time_micros (new_collector default_stats)"
    using assms by (simp add: max_age_micros_nonneg zero_less_diff_u64 new_collector_def)
  then have "GetStats S entries cache clock (new_collector default_stats)
               maximum_age_in_seconds =
    \<lparr>collector_after =
        \<lparr>saved_stats = EndCollection S cache (readings clock (Suc (taken clock)))
           (ApplyToAllEntries entries cache (GetEntryCallback S)
             (BeginCollection S cache (readings clock (taken clock))
               (saved_stats (new_collector default_stats)))),
         last_start_time_micros = readings clock (taken clock),
         last_end_time_micros = readings clock (Suc (taken clock))\<rparr>,
      clock_after = clock\<lparr>taken := Suc (Suc (taken clock))\<rparr>,
      stats_out = EndCollection S cache (readings clock (Suc (taken clock)))
           (ApplyToAllEntries entries cache (GetEntryCallback S)
             (BeginCollection S cache (readings clock (taken clock))
               (saved_stats (new_collector default_stats)))),
      calls = [Call_BeginCollection (readings clock (taken clock)), Call_ApplyToAllEntries,
               Call_EndCollection (readings clock (Suc (taken clock)))]\<rparr>"
    by (rule GetStats_scan)
  then show ?thesis by (simp add: new_collector_def)
qed

text \<open>
  The theorem at the default age, with a clock that reads 20000000 and then 20000300, over
  a cache of two entries, on a collector whose default statistics already count 9 entries
  and 7 copies: the scan leaves a count of 2 entries and no copy.
\<close>

theorem first_call_scans_once_witness:
  "(0::int) \<le> 180 \<and>
   readings (clock_of [20000000, 20000300]) (taken (clock_of [20000000, 20000300]))
     \<noteq> 10000000 \<and>
   GetStats EntryCount_Stats list_entries [10::nat, 20] (clock_of [20000000, 20000300])
     (new_collector \<lparr>entry_count = 9, copies_of_last_collection = 7\<rparr>) 180 =
     \<lparr>collector_after =
        \<lparr>saved_stats = \<lparr>entry_count = 2, copies_of_last_collection = 0\<rparr>,
         last_start_time_micros = 20000000, last_end_time_micros = 20000300\<rparr>,
      clock_after = (clock_of [20000000, 20000300])\<lparr>taken := 2\<rparr>,
      stats_out = \<lparr>entry_count = 2, copies_of_last_collection = 0\<rparr>,
      calls = [Call_BeginCollection 20000000, Call_ApplyToAllEntries,
               Call_EndCollection 20000300]\<rparr>"
  using first_call_scans_once
          [of 180 "clock_of [20000000, 20000300]" EntryCount_Stats list_entries
              "[10::nat, 20]" "\<lparr>entry_count = 9, copies_of_last_collection = 7\<rparr>"]
  by (simp add: clock_of_def EntryCount_Stats_def ApplyToAllEntries_def list_entries_def)

text \<open>
  C4 (the code departs from the claim). With the age 180, a first call whose scan starts
  and ends at time 0 and a second call one second later (1000000 microseconds): the claim
  has the second call skip, the code scans again, since the bound is 0 and one second has
  passed. When the second call comes 200 seconds later the code scans, as the claim says.
\<close>

theorem second_call_after_one_second_scans:
  "map calls (GetStats_sequence EntryCount_Stats list_entries [10::nat, 20]
      (clock_of [0, 0, 1000000, 1000000]) (new_collector EntryCount_default) [180, 180]) =
     [[Call_BeginCollection 0, Call_ApplyToAllEntries, Call_EndCollection 0],
      [Call_BeginCollection 1000000, Call_ApplyToAllEntries, Call_EndCollection 1000000]] \<and>
   map calls (GetStats_sequence EntryCount_Stats list_entries [10::nat, 20]
      (clock_of [0, 0, 200000000, 200000000]) (new_collector EntryCount_default) [180, 180]) =
     [[Call_BeginCollection 0, Call_ApplyToAllEntries, Call_EndCollection 0],
      [Call_BeginCollection 200000000, Call_ApplyToAllEntries,
       Call_EndCollection 200000000]]"
  by (simp add: run_defs)

text \<open>
  C5 as stated fails: \<open>SkippedCollection\<close> is called on the saved statistics before they
  are copied, and a Stats type may change itself there. With the type that counts the
  copies, two calls at time 0: the second call skips, and its copy differs from the copy the
  first call returned.
\<close>

theorem skipped_call_copy_differs:
  "map calls (GetStats_sequence EntryCount_Stats list_entries [10::nat, 20]
      (clock_of [0]) (new_collector EntryCount_default) [180, 180]) =
     [[Call_BeginCollection 0, Call_ApplyToAllEntries, Call_EndCollection 0],
      [Call_SkippedCollection]] \<and>
   map stats_out (GetStats_sequence EntryCount_Stats list_entries [10::nat, 20]
      (clock_of [0]) (new_collector EntryCount_default) [180, 180]) =
     [\<lparr>entry_count = 2, copies_of_last_collection = 0\<rparr>,
      \<lparr>entry_count = 2, copies_of_last_collection = 1\<rparr>]"
  by (simp add: run_defs)

text \<open>
  C5 (amended). A call that follows another call \<open>r0\<close> on the same collector and finds the
  elapsed time since \<open>last_end_time_micros\<close> within the bound calls \<open>SkippedCollection\<close>
  once and nothing else (no \<open>BeginCollection\<close>, no traversal, no \<open>EndCollection\<close>), and
  the value it copies out is the value \<open>r0\<close> copied out with \<open>SkippedCollection\<close> applied
  to it: it is the same value exactly when \<open>SkippedCollection\<close> leaves that value unchanged.
\<close>

theorem skipped_call_copies_previous_after_SkippedCollection:
  fixes S :: "('s, 'c, 'e) Stats" and entries cache0 clock c a0 cache a
  defines "r0 \<equiv> GetStats S entries cache0 clock c a0"
  defines "r \<equiv> GetStats S entries cache (clock_after r0) (collector_after r0) a"
  assumes "readings (clock_after r0) (taken (clock_after r0))
             - last_end_time_micros (collector_after r0)
           \<le> max_age_micros (collector_after r0) a"
  shows "calls r = [Call_SkippedCollection] \<and>
         stats_out r = SkippedCollection S (stats_out r0) \<and>
         (stats_out r = stats_out r0) = (SkippedCollection S (stats_out r0) = stats_out r0)"
proof -
  have "\<not> max_age_micros (collector_after r0) a
          < readings (clock_after r0) (taken (clock_after r0))
            - last_end_time_micros (collector_after r0)"
    using assms(3) by simp
  then have "r = \<lparr>collector_after =
        (collector_after r0)
          \<lparr>saved_stats := SkippedCollection S (saved_stats (collector_after r0))\<rparr>,
      clock_after = (clock_after r0)\<lparr>taken := Suc (taken (clock_after r0))\<rparr>,
      stats_out = SkippedCollection S (saved_stats (collector_after r0)),
      calls = [Call_SkippedCollection]\<rparr>"
    unfolding r_def by (rule GetStats_skip)
  moreover have "saved_stats (collector_after r0) = stats_out r0"
    unfolding r0_def by (rule GetStats_saved_stats)
  ultimately show ?thesis by simp
qed

text \<open>
  The theorem on two calls at time 0 with the default age; the cache has one more entry at
  the second call, which the skipped call does not see.
\<close>

theorem skipped_call_copies_previous_after_SkippedCollection_witness:
  "readings (clock_after (GetStats EntryCount_Stats list_entries [10::nat, 20] (clock_of [0])
       (new_collector EntryCount_default) 180))
     (taken (clock_after (GetStats EntryCount_Stats list_entries [10::nat, 20] (clock_of [0])
       (new_collector EntryCount_default) 180)))
     - last_end_time_micros (collector_after (GetStats EntryCount_Stats list_entries
         [10::nat, 20] (clock_of [0]) (new_collector EntryCount_default) 180))
     \<le> max_age_micros (collector_after (GetStats EntryCount_Stats list_entries
         [10::nat, 20] (clock_of [0]) (new_collector EntryCount_default) 180)) 180 \<and>
   calls (GetStats EntryCount_Stats list_entries [10::nat, 20, 30]
       (clock_after (GetStats EntryCount_Stats list_entries [10::nat, 20] (clock_of [0])
          (new_collector EntryCount_default) 180))
       (collector_after (GetStats EntryCount_Stats list_entries [10::nat, 20] (clock_of [0])
          (new_collector EntryCount_default) 180)) 180) = [Call_SkippedCollection] \<and>
   stats_out (GetStats EntryCount_Stats list_entries [10::nat, 20, 30]
       (clock_after (GetStats EntryCount_Stats list_entries [10::nat, 20] (clock_of [0])
          (new_collector EntryCount_default) 180))
       (collector_after (GetStats EntryCount_Stats list_entries [10::nat, 20] (clock_of [0])
          (new_collector EntryCount_default) 180)) 180) =
     \<lparr>entry_count = 2, copies_of_last_collection = 1\<rparr>"
proof -
  have h: "readings (clock_after (GetStats EntryCount_Stats list_entries [10::nat, 20]
       (clock_of [0]) (new_collector EntryCount_default) 180))
     (taken (clock_after (GetStats EntryCount_Stats list_entries [10::nat, 20] (clock_of [0])
       (new_collector EntryCount_default) 180)))
     - last_end_time_micros (collector_after (GetStats EntryCount_Stats list_entries
         [10::nat, 20] (clock_of [0]) (new_collector EntryCount_default) 180))
     \<le> max_age_micros (collector_after (GetStats EntryCount_Stats list_entries
         [10::nat, 20] (clock_of [0]) (new_collector EntryCount_default) 180)) 180"
    by (simp add: run_defs)
  have o: "stats_out (GetStats EntryCount_Stats list_entries [10::nat, 20] (clock_of [0])
       (new_collector EntryCount_default) 180) =
         \<lparr>entry_count = 2, copies_of_last_collection = 0\<rparr>"
    by (simp add: run_defs)
  show ?thesis
    using h skipped_call_copies_previous_after_SkippedCollection [OF h, of "[10::nat, 20, 30]"]
    by (simp add: o EntryCount_SkippedCollection)
qed

subsection \<open>The invariant of the time stamps\<close>

lemma monotonic_step: "monotonic clock \<Longrightarrow> readings clock n \<le> readings clock (Suc n)"
  by (simp add: monotonic_def)

lemma GetStats_monotonic:
  "monotonic clock \<Longrightarrow> monotonic (clock_after (GetStats S entries cache clock c a))"
  by (simp add: monotonic_def GetStats_clock_readings)

lemma GetStats_times_ordered:
  assumes "monotonic clock" "times_ordered c"
  shows "times_ordered (collector_after (GetStats S entries cache clock c a))"
proof (cases "readings clock (taken clock) - last_end_time_micros c > max_age_micros c a")
  case True
  then show ?thesis
    using monotonic_step [OF assms(1), of "taken clock"]
    by (simp add: GetStats_scan times_ordered_def)
next
  case False
  then show ?thesis
    using assms(2) by (simp add: GetStats_skip times_ordered_def)
qed

lemma GetStats_sequence_times_ordered:
  "monotonic clock \<Longrightarrow> times_ordered c \<Longrightarrow>
   list_all (\<lambda>r. times_ordered (collector_after r))
     (GetStats_sequence S entries cache clock c as)"
proof (induction as arbitrary: clock c)
  case Nil
  then show ?case by simp
next
  case (Cons a as)
  then show ?case
    by (simp add: Let_def GetStats_times_ordered GetStats_monotonic)
qed

lemma reading_of_two: "reading_of [a, b] i = (if i = 0 then a else b)"
  by (cases i) simp_all

lemma monotonic_clock_of_two: "a \<le> b \<Longrightarrow> monotonic (clock_of [a, b])"
  by (simp add: monotonic_def clock_of_def reading_of_two)

text \<open>
  C6. With a clock that never goes back, \<open>last_end_time_micros\<close> is at least
  \<open>last_start_time_micros\<close> in a new collector; a call of \<open>GetStats\<close> on a collector
  where this holds leaves a collector where it holds, on the scan branch and on the skip
  branch; so it holds after every call of every sequence of calls on a new collector.
\<close>

theorem times_ordered_invariant:
  assumes "monotonic clock"
  shows "times_ordered (new_collector default_stats) \<and>
         (times_ordered c \<longrightarrow>
            times_ordered (collector_after (GetStats S entries cache clock c a))) \<and>
         list_all (\<lambda>r. times_ordered (collector_after r))
            (GetStats_sequence S entries cache clock (new_collector default_stats) as)"
proof -
  have init: "times_ordered (new_collector default_stats)"
    by (simp add: times_ordered_def new_collector_def)
  show ?thesis
    using assms init
    by (simp add: GetStats_times_ordered GetStats_sequence_times_ordered)
qed

text \<open>
  The theorem with a clock that reads 5, then 9 and stays there: the first call scans from
  5 to 9, the second skips.
\<close>

theorem times_ordered_invariant_witness:
  "monotonic (clock_of [5, 9]) \<and>
   times_ordered (new_collector EntryCount_default) \<and>
   times_ordered (collector_after (GetStats EntryCount_Stats list_entries [10::nat, 20]
      (clock_of [5, 9]) (new_collector EntryCount_default) 180)) \<and>
   list_all (\<lambda>r. times_ordered (collector_after r))
     (GetStats_sequence EntryCount_Stats list_entries [10::nat, 20] (clock_of [5, 9])
        (new_collector EntryCount_default) [180, 180])"
proof -
  have m: "monotonic (clock_of [5, 9])"
    by (rule monotonic_clock_of_two) simp
  show ?thesis
    using m times_ordered_invariant
              [OF m, of EntryCount_default "new_collector EntryCount_default"
                  EntryCount_Stats list_entries "[10::nat, 20]" 180 "[180, 180]"]
    by simp
qed

section \<open>Properties of GetShared\<close>

text \<open>The definitions that a run on the table cache unfolds.\<close>

lemmas cache_defs = GetShared_def lookup_or_insert_def share_handle_def
  MakeSharedCacheHandleGuard_def table_Cache_def careless_Cache_def table_Lookup_def
  table_Insert_def careless_Insert_def empty_cache_def cache_holding_def
  no_unrelated_entry_def foreign_entry_def ok_def Let_def

text \<open>
  C7 as stated fails when assertions are compiled in: on a cache whose failed \<open>Insert\<close>
  has written a handle, the call does not return the status, it stops in the assertion of
  line 118.
\<close>

theorem failed_insert_with_handle_aborts:
  "outcome (GetShared False careless_Cache 42 EntryCount_default (empty_cache False)
      Empty_ptr) = Inl Assert_handle_is_null"
  by (simp add: cache_defs)

text \<open>
  C7 (amended). When both lookups find no entry and \<open>Insert\<close> returns a status that is
  not OK, the caller's shared pointer is what it was before the call, and \<open>GetShared\<close>
  returns exactly that status whenever the failed \<open>Insert\<close> left the handle \<open>nullptr\<close>
  or assertions are compiled out (\<open>NDEBUG\<close>); with assertions compiled in and a handle
  written by the failed \<open>Insert\<close>, the call stops in the assertion of line 118.
\<close>

theorem GetShared_returns_insert_failure:
  assumes "Lookup K cache (cache_key_data GetShared_address) = (None, cache1)"
    and "Lookup K cache1 (cache_key_data GetShared_address) = (None, cache2)"
    and "Insert K cache2 (cache_key_data GetShared_address) (new_collector default_stats) 0
           Deleter = (s, h, cache3)"
    and "\<not> ok s"
  shows "GetShared NDEBUG K GetShared_address default_stats cache ptr =
           \<lparr>outcome = (if NDEBUG \<or> h = None then Inr s else Inl Assert_handle_is_null),
            ptr_after = ptr, cache_after = cache3\<rparr>"
  using assms by (simp add: GetShared_def lookup_or_insert_def)

text \<open>
  The theorem on an empty table cache that is full and rejects the insert, assertions
  compiled in and the caller's shared pointer holding a guard from before; and on the
  cache whose failed insert writes a handle, assertions compiled out.
\<close>

theorem GetShared_returns_insert_failure_witness:
  "Lookup table_Cache (empty_cache True) (cache_key_data 42)
     = (None, empty_cache True :: EntryCount CacheEntryStatsCollector table_cache) \<and>
   Insert table_Cache (empty_cache True) (cache_key_data 42)
     (new_collector EntryCount_default) 0 Deleter = (Failure 7, None, empty_cache True) \<and>
   \<not> ok (Failure 7) \<and>
   GetShared False table_Cache 42 EntryCount_default (empty_cache True)
     (Guard foreign_entry) =
     \<lparr>outcome = Inr (Failure 7), ptr_after = Guard foreign_entry,
      cache_after = empty_cache True\<rparr> \<and>
   Insert careless_Cache (empty_cache False) (cache_key_data 42)
     (new_collector EntryCount_default) 0 Deleter =
     (Failure 7,
      Some \<lparr>entry_value = new_collector EntryCount_default, entry_charge = 0,
            entry_deleter = Deleter\<rparr>,
      empty_cache False) \<and>
   GetShared True careless_Cache 42 EntryCount_default (empty_cache False)
     (Guard foreign_entry) =
     \<lparr>outcome = Inr (Failure 7), ptr_after = Guard foreign_entry,
      cache_after = empty_cache False\<rparr>"
proof -
  have l: "Lookup table_Cache (empty_cache True) (cache_key_data 42)
             = (None, empty_cache True :: EntryCount CacheEntryStatsCollector table_cache)"
    by (simp add: table_Cache_def table_Lookup_def empty_cache_def)
  have i: "Insert table_Cache (empty_cache True) (cache_key_data 42)
     (new_collector EntryCount_default) 0 Deleter = (Failure 7, None, empty_cache True)"
    by (simp add: table_Cache_def table_Insert_def empty_cache_def)
  have l': "Lookup careless_Cache (empty_cache False) (cache_key_data 42)
             = (None, empty_cache False :: EntryCount CacheEntryStatsCollector table_cache)"
    by (simp add: careless_Cache_def table_Lookup_def empty_cache_def)
  have i': "Insert careless_Cache (empty_cache False) (cache_key_data 42)
     (new_collector EntryCount_default) 0 Deleter =
     (Failure 7,
      Some \<lparr>entry_value = new_collector EntryCount_default, entry_charge = 0,
            entry_deleter = Deleter\<rparr>,
      empty_cache False)"
    by (simp add: careless_Cache_def careless_Insert_def)
  have n: "\<not> ok (Failure 7)" by (simp add: ok_def)
  show ?thesis
    using l i i' n
      GetShared_returns_insert_failure [OF l l i n, of False "Guard foreign_entry"]
      GetShared_returns_insert_failure [OF l' l' i' n, of True "Guard foreign_entry"]
    by simp
qed




end
